theory Spec2Isabelle
  imports Complex_Main
begin

section \<open>MYNGO core: card engine and timing model (utils/myngo-utils.ts)\<close>

text \<open>
  A shallow embedding of the game utilities of MYNGO.  Console logging is left out: it
  has no influence on any returned value.  Card numbers and marked numbers are integers.
  A JavaScript exception is a value \<open>Inl e\<close> of the sum type \<open>error + 'a\<close>.
\<close>

subsection \<open>Data model (types/myngo.ts)\<close>

text \<open>
  The interface \<open>MyngoCard\<close> has the five columns \<open>M, Y, N, G, O\<close> of type \<open>number[]\<close>
  (the field \<open>O\<close> is \<open>O_col\<close> here, \<open>O\<close> being relation composition in HOL).
  At run time a column can be missing (\<open>undefined\<close>), which \<open>cardToArray\<close> tests with
  \<open>!card.M\<close>; a missing column is \<open>None\<close>.  An empty array is truthy in JavaScript, so
  \<open>Some []\<close> is a present column.
\<close>

record MyngoCard =
  M :: "int list option"
  Y :: "int list option"
  N :: "int list option"
  G :: "int list option"
  O_col :: "int list option"

datatype WinPattern = Row | Column | Diagonal

record WinCheck =
  hasWin :: bool
  pattern :: "WinPattern option"
  line :: "nat option"

record CalledNumber =
  call_id :: string
  room_id :: string
  number :: int
  letter :: string
  called_at :: string

datatype error = InvalidCardStructure | InvalidMyngoNumber int

text \<open>
  A cell of the 5x5 array is a number, the string \<open>'WILD'\<close>, or \<open>undefined\<close> (what
  JavaScript reads beyond the end of a column array).
\<close>

datatype cell = Num int | WILD | Undefined

subsection \<open>Win detection\<close>

text \<open>\<open>col[i]\<close>: reading an array beyond its end yields \<open>undefined\<close>.\<close>

definition at_index :: "int list \<Rightarrow> nat \<Rightarrow> cell" where
  "at_index xs i = (if i < length xs then Num (xs ! i) else Undefined)"

text \<open>\<open>marked.has(cell)\<close> on a set of numbers: only a number can be a member.\<close>

fun has :: "int set \<Rightarrow> cell \<Rightarrow> bool" where
  "has marked (Num n) = (n \<in> marked)"
| "has marked WILD = False"
| "has marked Undefined = False"

text \<open>
  The body of the loop \<open>for (let row = 0; row < 5; row++)\<close> of \<open>cardToArray\<close>:
  the row it builds.
\<close>

definition cardToArray_row ::
  "int list \<Rightarrow> int list \<Rightarrow> int list \<Rightarrow> int list \<Rightarrow> int list \<Rightarrow> nat \<Rightarrow> cell list" where
  "cardToArray_row cm cy cn cg co r =
     [at_index cm r,
      at_index cy r,
      (if r = 2 then WILD
       else (let nIndex = (if r < 2 then r else r - 1) in at_index cn nIndex)),
      at_index cg r,
      at_index co r]"

function cardToArray_loop ::
  "int list \<Rightarrow> int list \<Rightarrow> int list \<Rightarrow> int list \<Rightarrow> int list \<Rightarrow> nat \<Rightarrow>
   cell list list \<Rightarrow> cell list list" where
  "cardToArray_loop cm cy cn cg co r array =
     (if r < 5
      then cardToArray_loop cm cy cn cg co (r + 1) (array @ [cardToArray_row cm cy cn cg co r])
      else array)"
  by pat_completeness auto
termination
  by (relation "measure (\<lambda>(cm, cy, cn, cg, co, r, array). 5 - r)") auto

declare cardToArray_loop.simps [simp del]

text \<open>
  \<open>cardToArray\<close> throws \<open>Error('Invalid card structure')\<close> when the card or one of
  its columns is falsy.
\<close>

definition cardToArray :: "MyngoCard option \<Rightarrow> error + cell list list" where
  "cardToArray crd =
     (case crd of
        None \<Rightarrow> Inl InvalidCardStructure
      | Some c \<Rightarrow>
          (case (M c, Y c, N c, G c, O_col c) of
             (Some cm, Some cy, Some cn, Some cg, Some co) \<Rightarrow>
               Inr (cardToArray_loop cm cy cn cg co 0 [])
           | _ \<Rightarrow> Inl InvalidCardStructure))"

text \<open>
  \<open>checkLine\<close>: the loop over \<open>i\<close> returns \<open>false\<close> at the first cell that is neither
  \<open>'WILD'\<close> nor marked, and \<open>true\<close> after the fifth cell.
\<close>

function checkLine_loop ::
  "cell list list \<Rightarrow> int set \<Rightarrow> nat \<Rightarrow> WinPattern \<Rightarrow> nat \<Rightarrow> bool" where
  "checkLine_loop cardArray marked index type i =
     (if i < 5
      then (let c = (if type = Row then cardArray ! index ! i else cardArray ! i ! index)
            in if c = WILD then checkLine_loop cardArray marked index type (i + 1)
               else if \<not> has marked c then False
               else checkLine_loop cardArray marked index type (i + 1))
      else True)"
  by pat_completeness auto
termination
  by (relation "measure (\<lambda>(cardArray, marked, index, type, i). 5 - i)") auto

declare checkLine_loop.simps [simp del]

definition checkLine :: "cell list list \<Rightarrow> int set \<Rightarrow> nat \<Rightarrow> WinPattern \<Rightarrow> bool" where
  "checkLine cardArray marked index type = checkLine_loop cardArray marked index type 0"

datatype diagonal_type = Main | Anti

function checkDiagonal_loop ::
  "cell list list \<Rightarrow> int set \<Rightarrow> diagonal_type \<Rightarrow> nat \<Rightarrow> bool" where
  "checkDiagonal_loop cardArray marked type i =
     (if i < 5
      then (let c = (if type = Main then cardArray ! i ! i else cardArray ! i ! (4 - i))
            in if c = WILD then checkDiagonal_loop cardArray marked type (i + 1)
               else if \<not> has marked c then False
               else checkDiagonal_loop cardArray marked type (i + 1))
      else True)"
  by pat_completeness auto
termination
  by (relation "measure (\<lambda>(cardArray, marked, type, i). 5 - i)") auto

declare checkDiagonal_loop.simps [simp del]

definition checkDiagonal :: "cell list list \<Rightarrow> int set \<Rightarrow> diagonal_type \<Rightarrow> bool" where
  "checkDiagonal cardArray marked type = checkDiagonal_loop cardArray marked type 0"

definition no_win :: WinCheck where
  "no_win = \<lparr>hasWin = False, pattern = None, line = None\<rparr>"

definition win :: "WinPattern \<Rightarrow> nat \<Rightarrow> WinCheck" where
  "win p l = \<lparr>hasWin = True, pattern = Some p, line = Some l\<rparr>"

text \<open>
  The two loops of \<open>checkWin\<close> over rows and over columns: the first index whose line
  is complete ends the function with a win; \<open>None\<close> means the loop ran to its end.
\<close>

function checkWin_lines ::
  "cell list list \<Rightarrow> int set \<Rightarrow> WinPattern \<Rightarrow> nat \<Rightarrow> WinCheck option" where
  "checkWin_lines cardArray marked type k =
     (if k < 5
      then (if checkLine cardArray marked k type then Some (win type k)
            else checkWin_lines cardArray marked type (k + 1))
      else None)"
  by pat_completeness auto
termination
  by (relation "measure (\<lambda>(cardArray, marked, type, k). 5 - k)") auto

declare checkWin_lines.simps [simp del]

text \<open>The \<open>try\<close> block of \<open>checkWin\<close>.\<close>

definition checkWin_try :: "MyngoCard option \<Rightarrow> int list \<Rightarrow> error + WinCheck" where
  "checkWin_try crd markedNumbers =
     (case cardToArray crd of
        Inl e \<Rightarrow> Inl e
      | Inr cardArray \<Rightarrow>
          (let marked = set markedNumbers in
           case checkWin_lines cardArray marked Row 0 of
             Some w \<Rightarrow> Inr w
           | None \<Rightarrow>
               (case checkWin_lines cardArray marked Column 0 of
                  Some w \<Rightarrow> Inr w
                | None \<Rightarrow>
                    if checkDiagonal cardArray marked Main then Inr (win Diagonal 0)
                    else if checkDiagonal cardArray marked Anti then Inr (win Diagonal 1)
                    else Inr no_win)))"

text \<open>
  \<open>checkWin\<close>: the guard \<open>!card || !markedNumbers || markedNumbers.length === 0\<close>, then
  the \<open>try\<close> block, whose \<open>catch\<close> returns \<open>{ hasWin: false }\<close>.  A \<open>null\<close> or \<open>undefined\<close>
  argument is \<open>None\<close>.
\<close>

definition checkWin :: "MyngoCard option \<Rightarrow> int list option \<Rightarrow> error + WinCheck" where
  "checkWin crd markedNumbers =
     (if crd = None \<or> markedNumbers = None \<or> markedNumbers = Some [] then Inr no_win
      else (case checkWin_try crd (the markedNumbers) of
              Inl e \<Rightarrow> Inr no_win
            | Inr w \<Rightarrow> Inr w))"

subsection \<open>Near-win detection\<close>

text \<open>
  The three inner loops of \<open>isCloseToWin\<close> count the cells of a line that are neither
  \<open>'WILD'\<close> nor marked; \<open>cell_of\<close> selects the cell that iteration \<open>i\<close> reads.
\<close>

definition cell_of :: "cell list list \<Rightarrow> WinPattern \<Rightarrow> nat \<Rightarrow> nat \<Rightarrow> cell" where
  "cell_of cardArray type index i =
     (if type = Row then cardArray ! index ! i
      else if type = Column then cardArray ! i ! index
      else (if index = 0 then cardArray ! i ! i else cardArray ! i ! (4 - i)))"

function count_unmarked ::
  "cell list list \<Rightarrow> int set \<Rightarrow> WinPattern \<Rightarrow> nat \<Rightarrow> nat \<Rightarrow> nat \<Rightarrow> nat" where
  "count_unmarked cardArray marked type index i unmarkedCount =
     (if i < 5
      then (let c = cell_of cardArray type index i
            in count_unmarked cardArray marked type index (i + 1)
                 (if c \<noteq> WILD \<and> \<not> has marked c then unmarkedCount + 1 else unmarkedCount))
      else unmarkedCount)"
  by pat_completeness auto
termination
  by (relation "measure (\<lambda>(cardArray, marked, type, index, i, unmarkedCount). 5 - i)") auto

declare count_unmarked.simps [simp del]

text \<open>The array \<open>lines\<close>: five rows, five columns, the main and the anti diagonal.\<close>

definition lines :: "(WinPattern \<times> nat) list" where
  "lines = map (\<lambda>i. (Row, i)) [0..<5] @ map (\<lambda>i. (Column, i)) [0..<5]
           @ [(Diagonal, 0), (Diagonal, 1)]"

text \<open>\<open>for (const line of lines)\<close>: returns \<open>true\<close> at the first line with one unmarked cell.\<close>

fun isCloseToWin_lines :: "cell list list \<Rightarrow> int set \<Rightarrow> (WinPattern \<times> nat) list \<Rightarrow> bool" where
  "isCloseToWin_lines cardArray marked [] = False"
| "isCloseToWin_lines cardArray marked ((type, index) # rest) =
     (if count_unmarked cardArray marked type index 0 0 = 1 then True
      else isCloseToWin_lines cardArray marked rest)"

text \<open>
  \<open>isCloseToWinLegacy\<close> has the guard and the loop but no \<open>try\<close>: the error of
  \<open>cardToArray\<close> reaches the caller.
\<close>

definition isCloseToWinLegacy :: "MyngoCard option \<Rightarrow> int list option \<Rightarrow> error + bool" where
  "isCloseToWinLegacy crd markedNumbers =
     (if crd = None \<or> markedNumbers = None \<or> markedNumbers = Some [] then Inr False
      else (case cardToArray crd of
              Inl e \<Rightarrow> Inl e
            | Inr cardArray \<Rightarrow>
                Inr (isCloseToWin_lines cardArray (set (the markedNumbers)) lines)))"

text \<open>\<open>isCloseToWin\<close>: the same guard, and a \<open>catch\<close> that returns \<open>false\<close>.\<close>

definition isCloseToWin :: "MyngoCard option \<Rightarrow> int list option \<Rightarrow> error + bool" where
  "isCloseToWin crd markedNumbers =
     (if crd = None \<or> markedNumbers = None \<or> markedNumbers = Some [] then Inr False
      else (case cardToArray crd of
              Inl e \<Rightarrow> Inr False
            | Inr cardArray \<Rightarrow>
                Inr (isCloseToWin_lines cardArray (set (the markedNumbers)) lines)))"

subsection \<open>Card generation\<close>

text \<open>
  \<open>Math.random()\<close> is the injected source of randomness: \<open>rnd k\<close> is the \<open>k\<close>-th number
  it returns, and the functions below thread the count \<open>k\<close> of numbers drawn so far.

  \<open>available.splice(start, 1)[0]\<close>: the element removed at \<open>start\<close> and the array that
  is left.  A negative \<open>start\<close> counts from the end; beyond the end nothing is removed and
  the element read is \<open>undefined\<close> (\<open>None\<close>).
\<close>

definition splice1 :: "int list \<Rightarrow> int \<Rightarrow> int option \<times> int list" where
  "splice1 xs start =
     (let len = int (length xs);
          actualStart = (if start < 0 then max (len + start) 0 else min start len)
      in if actualStart < len
         then (Some (xs ! nat actualStart),
               take (nat actualStart) xs @ drop (nat actualStart + 1) xs)
         else (None, xs))"

text \<open>
  The loop of \<open>getRandomNumbers\<close>, by the number of iterations that remain.  Where
  JavaScript would push \<open>undefined\<close> the model stops with \<open>None\<close>; the theorem on
  \<open>generateMyngoCard\<close> shows that this does not happen.
\<close>

fun getRandomNumbers_loop ::
  "(nat \<Rightarrow> real) \<Rightarrow> nat \<Rightarrow> nat \<Rightarrow> int list \<Rightarrow> int list \<Rightarrow> (int list \<times> nat) option" where
  "getRandomNumbers_loop rnd k 0 available numbers = Some (numbers, k)"
| "getRandomNumbers_loop rnd k (Suc remaining) available numbers =
     (let randomIndex = \<lfloor>rnd k * real (length available)\<rfloor>
      in case splice1 available randomIndex of
           (None, available') \<Rightarrow> None
         | (Some x, available') \<Rightarrow>
             getRandomNumbers_loop rnd (k + 1) remaining available' (numbers @ [x]))"

text \<open>
  \<open>getRandomNumbers(min, max, count)\<close>; \<open>numbers.sort((a, b) => a - b)\<close> sorts ascending.
\<close>

definition getRandomNumbers ::
  "(nat \<Rightarrow> real) \<Rightarrow> nat \<Rightarrow> int \<Rightarrow> int \<Rightarrow> nat \<Rightarrow> (int list \<times> nat) option" where
  "getRandomNumbers rnd k mn mx count =
     (let available = map (\<lambda>i. mn + int i) [0..<nat (mx - mn + 1)]
      in case getRandomNumbers_loop rnd k count available [] of
           None \<Rightarrow> None
         | Some (numbers, k') \<Rightarrow> Some (sort numbers, k'))"

definition generateMyngoCard :: "(nat \<Rightarrow> real) \<Rightarrow> MyngoCard option" where
  "generateMyngoCard rnd =
     (case getRandomNumbers rnd 0 1 15 5 of None \<Rightarrow> None | Some (cm, k1) \<Rightarrow>
      case getRandomNumbers rnd k1 16 30 5 of None \<Rightarrow> None | Some (cy, k2) \<Rightarrow>
      case getRandomNumbers rnd k2 31 45 4 of None \<Rightarrow> None | Some (cn, k3) \<Rightarrow>
      case getRandomNumbers rnd k3 46 60 5 of None \<Rightarrow> None | Some (cg, k4) \<Rightarrow>
      case getRandomNumbers rnd k4 61 75 5 of None \<Rightarrow> None | Some (co, k5) \<Rightarrow>
        Some \<lparr>M = Some cm, Y = Some cy, N = Some cn, G = Some cg, O_col = Some co\<rparr>)"

subsection \<open>Timing model\<close>

text \<open>
  A JavaScript number is a finite value, the negative zero, \<open>Infinity\<close>, \<open>-Infinity\<close> or
  \<open>NaN\<close>; \<open>Finite 0\<close> is the positive zero and \<open>NegZero\<close> the negative one.  The two
  zeros differ in the sign of a product or quotient they enter.  On finite values the
  arithmetic is exact real arithmetic: the rounding and the overflow of IEEE doubles are
  not modelled.
\<close>

datatype jsnum = Finite real | NegZero | PosInfinity | NegInfinity | NaN

fun js_mul :: "jsnum \<Rightarrow> jsnum \<Rightarrow> jsnum" where
  "js_mul NaN y = NaN"
| "js_mul x NaN = NaN"
| "js_mul (Finite a) (Finite b) =
     (if a * b = 0 \<and> (a < 0) \<noteq> (b < 0) then NegZero else Finite (a * b))"
| "js_mul (Finite a) NegZero = (if a < 0 then Finite 0 else NegZero)"
| "js_mul NegZero (Finite b) = (if b < 0 then Finite 0 else NegZero)"
| "js_mul NegZero NegZero = Finite 0"
| "js_mul (Finite a) PosInfinity =
     (if a = 0 then NaN else if 0 < a then PosInfinity else NegInfinity)"
| "js_mul (Finite a) NegInfinity =
     (if a = 0 then NaN else if 0 < a then NegInfinity else PosInfinity)"
| "js_mul PosInfinity (Finite b) =
     (if b = 0 then NaN else if 0 < b then PosInfinity else NegInfinity)"
| "js_mul NegInfinity (Finite b) =
     (if b = 0 then NaN else if 0 < b then NegInfinity else PosInfinity)"
| "js_mul NegZero PosInfinity = NaN"
| "js_mul NegZero NegInfinity = NaN"
| "js_mul PosInfinity NegZero = NaN"
| "js_mul NegInfinity NegZero = NaN"
| "js_mul PosInfinity PosInfinity = PosInfinity"
| "js_mul PosInfinity NegInfinity = NegInfinity"
| "js_mul NegInfinity PosInfinity = NegInfinity"
| "js_mul NegInfinity NegInfinity = PosInfinity"

fun js_sub :: "jsnum \<Rightarrow> jsnum \<Rightarrow> jsnum" where
  "js_sub NaN y = NaN"
| "js_sub x NaN = NaN"
| "js_sub (Finite a) (Finite b) = Finite (a - b)"
| "js_sub (Finite a) NegZero = Finite a"
| "js_sub NegZero (Finite b) = (if b = 0 then NegZero else Finite (- b))"
| "js_sub NegZero NegZero = Finite 0"
| "js_sub (Finite a) PosInfinity = NegInfinity"
| "js_sub (Finite a) NegInfinity = PosInfinity"
| "js_sub NegZero PosInfinity = NegInfinity"
| "js_sub NegZero NegInfinity = PosInfinity"
| "js_sub PosInfinity PosInfinity = NaN"
| "js_sub NegInfinity NegInfinity = NaN"
| "js_sub PosInfinity y = PosInfinity"
| "js_sub NegInfinity y = NegInfinity"

fun js_div :: "jsnum \<Rightarrow> jsnum \<Rightarrow> jsnum" where
  "js_div NaN y = NaN"
| "js_div x NaN = NaN"
| "js_div (Finite a) (Finite b) =
     (if b = 0 then (if a = 0 then NaN else if 0 < a then PosInfinity else NegInfinity)
      else if a = 0 \<and> b < 0 then NegZero
      else Finite (a / b))"
| "js_div (Finite a) NegZero =
     (if a = 0 then NaN else if 0 < a then NegInfinity else PosInfinity)"
| "js_div NegZero (Finite b) =
     (if b = 0 then NaN else if b < 0 then Finite 0 else NegZero)"
| "js_div NegZero NegZero = NaN"
| "js_div (Finite a) PosInfinity = (if a < 0 then NegZero else Finite 0)"
| "js_div (Finite a) NegInfinity = (if a < 0 then Finite 0 else NegZero)"
| "js_div NegZero PosInfinity = NegZero"
| "js_div NegZero NegInfinity = Finite 0"
| "js_div PosInfinity (Finite b) = (if b < 0 then NegInfinity else PosInfinity)"
| "js_div NegInfinity (Finite b) = (if b < 0 then PosInfinity else NegInfinity)"
| "js_div PosInfinity NegZero = NegInfinity"
| "js_div NegInfinity NegZero = PosInfinity"
| "js_div PosInfinity PosInfinity = NaN"
| "js_div PosInfinity NegInfinity = NaN"
| "js_div NegInfinity PosInfinity = NaN"
| "js_div NegInfinity NegInfinity = NaN"

text \<open>
  \<open>Math.log10\<close>, \<open>Math.ceil\<close> and \<open>Math.round\<close> (to the nearest integer, a tie
  upwards; a result between -1 and 0 is the negative zero), \<open>Math.min\<close> and \<open>Math.max\<close>
  (\<open>NaN\<close> if an argument is \<open>NaN\<close>; the negative zero is below the positive one).
\<close>

fun js_log10 :: "jsnum \<Rightarrow> jsnum" where
  "js_log10 (Finite x) =
     (if x < 0 then NaN else if x = 0 then NegInfinity else Finite (log 10 x))"
| "js_log10 NegZero = NegInfinity"
| "js_log10 PosInfinity = PosInfinity"
| "js_log10 NegInfinity = NaN"
| "js_log10 NaN = NaN"

fun js_ceil :: "jsnum \<Rightarrow> jsnum" where
  "js_ceil (Finite x) = (if - 1 < x \<and> x < 0 then NegZero else Finite (of_int \<lceil>x\<rceil>))"
| "js_ceil x = x"

fun js_round :: "jsnum \<Rightarrow> jsnum" where
  "js_round (Finite x) =
     (if - (1 / 2) \<le> x \<and> x < 0 then NegZero else Finite (of_int \<lfloor>x + 1 / 2\<rfloor>))"
| "js_round x = x"

fun js_min :: "jsnum \<Rightarrow> jsnum \<Rightarrow> jsnum" where
  "js_min NaN y = NaN"
| "js_min x NaN = NaN"
| "js_min NegInfinity y = NegInfinity"
| "js_min x NegInfinity = NegInfinity"
| "js_min PosInfinity y = y"
| "js_min x PosInfinity = x"
| "js_min (Finite a) (Finite b) = Finite (min a b)"
| "js_min (Finite a) NegZero = (if a < 0 then Finite a else NegZero)"
| "js_min NegZero (Finite b) = (if b < 0 then Finite b else NegZero)"
| "js_min NegZero NegZero = NegZero"

fun js_max :: "jsnum \<Rightarrow> jsnum \<Rightarrow> jsnum" where
  "js_max NaN y = NaN"
| "js_max x NaN = NaN"
| "js_max PosInfinity y = PosInfinity"
| "js_max x PosInfinity = PosInfinity"
| "js_max NegInfinity y = y"
| "js_max x NegInfinity = x"
| "js_max (Finite a) (Finite b) = Finite (max a b)"
| "js_max (Finite a) NegZero = (if a < 0 then NegZero else Finite a)"
| "js_max NegZero (Finite b) = (if b < 0 then NegZero else Finite b)"
| "js_max NegZero NegZero = NegZero"

definition calculateCallFrequency :: "jsnum \<Rightarrow> jsnum \<Rightarrow> jsnum" where
  "calculateCallFrequency players durationMinutes =
     (let numbersNeeded = js_sub (Finite 45) (js_mul (Finite 0.5) players);
          availableSeconds = js_mul (js_mul durationMinutes (Finite 60)) (Finite 0.90);
          secondsPerCall = js_round (js_div availableSeconds numbersNeeded)
      in js_max (Finite 10) (js_min (Finite 90) secondsPerCall))"

text \<open>
  The constant \<open>result\<close> of \<open>calculateCallsNeeded\<close>, before it is clamped.
\<close>

definition calculateCallsNeeded_result :: "jsnum \<Rightarrow> jsnum" where
  "calculateCallsNeeded_result players =
     js_ceil (js_sub (Finite 50) (js_mul (Finite 10) (js_log10 players)))"

definition calculateCallsNeeded :: "jsnum \<Rightarrow> jsnum" where
  "calculateCallsNeeded players =
     (let result = calculateCallsNeeded_result players
      in js_max (Finite 15) (js_min (Finite 75) result))"


text \<open>
  The clamp of an integer to an inclusive range, to state results.
\<close>

definition clamp_to :: "int \<Rightarrow> int \<Rightarrow> int \<Rightarrow> int" where
  "clamp_to least greatest v = max least (min greatest v)"

subsection \<open>Letters and available numbers\<close>

definition getLetterForNumber :: "int \<Rightarrow> error + string" where
  "getLetterForNumber num =
     (if num \<ge> 1 \<and> num \<le> 15 then Inr ''M''
      else if num \<ge> 16 \<and> num \<le> 30 then Inr ''Y''
      else if num \<ge> 31 \<and> num \<le> 45 then Inr ''N''
      else if num \<ge> 46 \<and> num \<le> 60 then Inr ''G''
      else if num \<ge> 61 \<and> num \<le> 75 then Inr ''O''
      else Inl (InvalidMyngoNumber num))"

text \<open>
  \<open>getAvailableNumbers\<close>: \<open>Array.from({ length: 75 }, (_, i) => i + 1)\<close> without the
  called numbers.
\<close>

definition getAvailableNumbers :: "CalledNumber list \<Rightarrow> int list" where
  "getAvailableNumbers calledNumbers =
     (let allNumbers = map (\<lambda>i. int i + 1) [0..<75];
          calledSet = set (map number calledNumbers)
      in filter (\<lambda>num. num \<notin> calledSet) allNumbers)"

subsection \<open>The classification as the specification words it\<close>

text \<open>
  A well-formed card has its five columns, of the stored lengths 5, 5, 4, 5, 5.
\<close>

definition well_formed :: "MyngoCard \<Rightarrow> bool" where
  "well_formed c =
     (case (M c, Y c, N c, G c, O_col c) of
        (Some cm, Some cy, Some cn, Some cg, Some co) \<Rightarrow>
          length cm = 5 \<and> length cy = 5 \<and> length cn = 4 \<and> length cg = 5 \<and> length co = 5
      | _ \<Rightarrow> False)"

text \<open>
  The logical grid, column by column: a column shows its stored values in order, and the
  N column shows its four values around the free cell at row 2.
\<close>

definition stored :: "int list option \<Rightarrow> cell list" where
  "stored c = (case c of None \<Rightarrow> [] | Some xs \<Rightarrow> map Num xs)"

definition grid_columns :: "MyngoCard \<Rightarrow> cell list list" where
  "grid_columns c =
     [stored (M c), stored (Y c),
      take 2 (stored (N c)) @ [WILD] @ drop 2 (stored (N c)),
      stored (G c), stored (O_col c)]"

definition grid_cell :: "MyngoCard \<Rightarrow> nat \<Rightarrow> nat \<Rightarrow> cell" where
  "grid_cell c i j = grid_columns c ! j ! i"

text \<open>The cells of a line: a row, a column, the main (0) or the anti (1) diagonal.\<close>

fun line_cells :: "MyngoCard \<Rightarrow> WinPattern \<times> nat \<Rightarrow> cell list" where
  "line_cells c (Row, i) = map (\<lambda>j. grid_cell c i j) [0..<5]"
| "line_cells c (Column, j) = map (\<lambda>i. grid_cell c i j) [0..<5]"
| "line_cells c (Diagonal, d) =
     (if d = 0 then map (\<lambda>i. grid_cell c i i) [0..<5]
      else map (\<lambda>i. grid_cell c i (4 - i)) [0..<5])"

text \<open>A cell is satisfied iff it is the free cell or its number is marked.\<close>

definition satisfied :: "int list \<Rightarrow> cell \<Rightarrow> bool" where
  "satisfied markedNumbers x = (x = WILD \<or> (\<exists>n \<in> set markedNumbers. x = Num n))"

text \<open>The check order: rows 0-4, columns 0-4, main diagonal, anti diagonal.\<close>

definition candidate_lines :: "(WinPattern \<times> nat) list" where
  "candidate_lines =
     [(Row, 0), (Row, 1), (Row, 2), (Row, 3), (Row, 4),
      (Column, 0), (Column, 1), (Column, 2), (Column, 3), (Column, 4),
      (Diagonal, 0), (Diagonal, 1)]"

definition classifyCard_spec :: "MyngoCard \<Rightarrow> int list \<Rightarrow> WinCheck" where
  "classifyCard_spec c markedNumbers =
     (case find (\<lambda>l. list_all (satisfied markedNumbers) (line_cells c l)) candidate_lines of
        None \<Rightarrow> no_win
      | Some (p, i) \<Rightarrow> win p i)"

definition unmarked_count :: "MyngoCard \<Rightarrow> int list \<Rightarrow> WinPattern \<times> nat \<Rightarrow> nat" where
  "unmarked_count c markedNumbers l =
     length (filter (\<lambda>x. \<not> satisfied markedNumbers x) (line_cells c l))"

definition classifyNearWin_spec :: "MyngoCard \<Rightarrow> int list \<Rightarrow> bool" where
  "classifyNearWin_spec c markedNumbers =
     list_ex (\<lambda>l. unmarked_count c markedNumbers l = 1) candidate_lines"

text \<open>A card value that lacks at least one of its five column arrays.\<close>

definition missing_column :: "MyngoCard \<Rightarrow> bool" where
  "missing_column c =
     (M c = None \<or> Y c = None \<or> N c = None \<or> G c = None \<or> O_col c = None)"

subsection \<open>Example cards\<close>

definition example_card :: MyngoCard where
  "example_card = \<lparr>M = Some [1, 2, 3, 4, 5], Y = Some [16, 17, 18, 19, 20],
     N = Some [31, 32, 33, 34], G = Some [46, 47, 48, 49, 50],
     O_col = Some [61, 62, 63, 64, 65]\<rparr>"

text \<open>A card whose M column has three numbers only.\<close>

definition short_card :: MyngoCard where
  "short_card = \<lparr>M = Some [1, 2, 3], Y = Some [16, 17, 18, 19, 20],
     N = Some [31, 32, 33, 34], G = Some [46, 47, 48, 49, 50],
     O_col = Some [61, 62, 63, 64, 65]\<rparr>"

text \<open>A card without its N column.\<close>

definition partial_card :: MyngoCard where
  "partial_card = \<lparr>M = Some [1, 2, 3, 4, 5], Y = Some [16, 17, 18, 19, 20],
     N = None, G = Some [46, 47, 48, 49, 50], O_col = Some [61, 62, 63, 64, 65]\<rparr>"

section \<open>Verification\<close>

subsection \<open>The loops as list functions\<close>

lemma upt5: "[0..<5] = [0, 1, 2, 3, 4]"
  by (simp add: upt_rec)

lemma cardToArray_loop_unfold:
  "cardToArray_loop cm cy cn cg co 0 [] =
     [cardToArray_row cm cy cn cg co 0, cardToArray_row cm cy cn cg co 1,
      cardToArray_row cm cy cn cg co 2, cardToArray_row cm cy cn cg co 3,
      cardToArray_row cm cy cn cg co 4]"
  by (simp add: cardToArray_loop.simps numeral_2_eq_2 numeral_3_eq_3 eval_nat_numeral)

lemma checkLine_loop_all:
  "checkLine_loop a marked index type i =
     list_all (\<lambda>k. let c = (if type = Row then a ! index ! k else a ! k ! index)
                    in c = WILD \<or> has marked c) [i..<5]"
proof (induction a marked index type i rule: checkLine_loop.induct)
  case (1 a marked index type i)
  show ?case
  proof (cases "i < 5")
    case True
    then show ?thesis
      using "1" by (subst checkLine_loop.simps) (auto simp: upt_conv_Cons Let_def)
  next
    case False
    then show ?thesis by (subst checkLine_loop.simps) simp
  qed
qed

lemma checkDiagonal_loop_all:
  "checkDiagonal_loop a marked type i =
     list_all (\<lambda>k. let c = (if type = Main then a ! k ! k else a ! k ! (4 - k))
                    in c = WILD \<or> has marked c) [i..<5]"
proof (induction a marked type i rule: checkDiagonal_loop.induct)
  case (1 a marked type i)
  show ?case
  proof (cases "i < 5")
    case True
    then show ?thesis
      using "1" by (subst checkDiagonal_loop.simps) (auto simp: upt_conv_Cons Let_def)
  next
    case False
    then show ?thesis by (subst checkDiagonal_loop.simps) simp
  qed
qed

lemma checkWin_lines_find:
  "checkWin_lines a marked type k =
     map_option (win type) (find (\<lambda>k. checkLine a marked k type) [k..<5])"
proof (induction a marked type k rule: checkWin_lines.induct)
  case (1 a marked type k)
  show ?case
  proof (cases "k < 5")
    case True
    then show ?thesis
      using "1" by (subst checkWin_lines.simps) (auto simp: upt_conv_Cons)
  next
    case False
    then show ?thesis by (subst checkWin_lines.simps) simp
  qed
qed

lemma count_unmarked_filter:
  "count_unmarked a marked type index i n =
     n + length (filter (\<lambda>k. cell_of a type index k \<noteq> WILD \<and> \<not> has marked (cell_of a type index k)) [i..<5])"
proof (induction a marked type index i n rule: count_unmarked.induct)
  case (1 a marked type index i n)
  show ?case
  proof (cases "i < 5")
    case True
    then show ?thesis
      using "1" by (subst count_unmarked.simps) (auto simp: upt_conv_Cons Let_def)
  next
    case False
    then show ?thesis by (subst count_unmarked.simps) simp
  qed
qed


subsection \<open>The array of a well-formed card\<close>

lemma length5E:
  "length xs = 5 \<Longrightarrow> \<exists>a b c d e. xs = [a, b, c, d, e]"
  by (auto simp: eval_nat_numeral length_Suc_conv)

lemma length4E:
  "length xs = 4 \<Longrightarrow> \<exists>a b c d. xs = [a, b, c, d]"
  by (auto simp: eval_nat_numeral length_Suc_conv)

lemma well_formedE:
  assumes "well_formed c"
  obtains m0 m1 m2 m3 m4 y0 y1 y2 y3 y4 n0 n1 n2 n3 g0 g1 g2 g3 g4 o0 o1 o2 o3 o4
  where "c = \<lparr>M = Some [m0, m1, m2, m3, m4], Y = Some [y0, y1, y2, y3, y4],
               N = Some [n0, n1, n2, n3], G = Some [g0, g1, g2, g3, g4],
               O_col = Some [o0, o1, o2, o3, o4]\<rparr>"
proof -
  obtain cm cy cn cg co where c: "M c = Some cm" "Y c = Some cy" "N c = Some cn"
      "G c = Some cg" "O_col c = Some co"
    and len: "length cm = 5" "length cy = 5" "length cn = 4" "length cg = 5" "length co = 5"
    using assms by (auto simp: well_formed_def split: option.splits)
  from len obtain m0 m1 m2 m3 m4 y0 y1 y2 y3 y4 n0 n1 n2 n3 g0 g1 g2 g3 g4 o0 o1 o2 o3 o4
    where "cm = [m0, m1, m2, m3, m4]" "cy = [y0, y1, y2, y3, y4]" "cn = [n0, n1, n2, n3]"
      "cg = [g0, g1, g2, g3, g4]" "co = [o0, o1, o2, o3, o4]"
    by (metis length5E length4E)
  with c have "c = \<lparr>M = Some [m0, m1, m2, m3, m4], Y = Some [y0, y1, y2, y3, y4],
               N = Some [n0, n1, n2, n3], G = Some [g0, g1, g2, g3, g4],
               O_col = Some [o0, o1, o2, o3, o4]\<rparr>"
    by (cases c) simp
  then show thesis by (rule that)
qed

lemma cardToArray_grid:
  assumes "well_formed c"
  shows "\<exists>a. cardToArray (Some c) = Inr a \<and> (\<forall>i<5. \<forall>j<5. a ! i ! j = grid_cell c i j)"
proof -
  from assms obtain m0 m1 m2 m3 m4 y0 y1 y2 y3 y4 n0 n1 n2 n3 g0 g1 g2 g3 g4 o0 o1 o2 o3 o4
  where c: "c = \<lparr>M = Some [m0, m1, m2, m3, m4], Y = Some [y0, y1, y2, y3, y4],
               N = Some [n0, n1, n2, n3], G = Some [g0, g1, g2, g3, g4],
               O_col = Some [o0, o1, o2, o3, o4]\<rparr>"
    by (rule well_formedE)
  have less5: "\<And>i::nat. i < 5 \<longleftrightarrow> i = 0 \<or> i = 1 \<or> i = 2 \<or> i = 3 \<or> i = 4" by auto
  show ?thesis
    unfolding c
    by (simp add: cardToArray_def cardToArray_loop_unfold cardToArray_row_def at_index_def
        grid_cell_def grid_columns_def stored_def less5)
qed


subsection \<open>Win detection on a well-formed card\<close>

lemma has_satisfied: "(x = WILD \<or> has (set ms) x) = satisfied ms x"
  by (cases x) (auto simp: satisfied_def)

lemma checkLine_Row:
  assumes "\<forall>i<5. \<forall>j<5. a ! i ! j = grid_cell c i j" and "k < 5"
  shows "checkLine a (set ms) k Row = list_all (satisfied ms) (line_cells c (Row, k))"
  using assms
  by (simp add: checkLine_def checkLine_loop_all upt5 Let_def has_satisfied)

lemma checkLine_Column:
  assumes "\<forall>i<5. \<forall>j<5. a ! i ! j = grid_cell c i j" and "k < 5"
  shows "checkLine a (set ms) k Column = list_all (satisfied ms) (line_cells c (Column, k))"
  using assms
  by (simp add: checkLine_def checkLine_loop_all upt5 Let_def has_satisfied)

lemma checkDiagonal_Main:
  assumes "\<forall>i<5. \<forall>j<5. a ! i ! j = grid_cell c i j"
  shows "checkDiagonal a (set ms) Main = list_all (satisfied ms) (line_cells c (Diagonal, 0))"
  using assms
  by (simp add: checkDiagonal_def checkDiagonal_loop_all upt5 Let_def has_satisfied)

lemma checkDiagonal_Anti:
  assumes "\<forall>i<5. \<forall>j<5. a ! i ! j = grid_cell c i j"
  shows "checkDiagonal a (set ms) Anti = list_all (satisfied ms) (line_cells c (Diagonal, 1))"
  using assms
  by (simp add: checkDiagonal_def checkDiagonal_loop_all upt5 Let_def has_satisfied)

lemma checkWin_try_classify:
  assumes "well_formed c"
  shows "checkWin_try (Some c) ms = Inr (classifyCard_spec c ms)"
proof -
  from cardToArray_grid [OF assms] obtain a where a: "cardToArray (Some c) = Inr a"
    and g: "\<forall>i<5. \<forall>j<5. a ! i ! j = grid_cell c i j" by blast
  let ?P = "\<lambda>l. list_all (satisfied ms) (line_cells c l)"
  have r: "checkLine a (set ms) k Row = ?P (Row, k)" if "k < 5" for k
    using checkLine_Row [OF g that] .
  have cl: "checkLine a (set ms) k Column = ?P (Column, k)" if "k < 5" for k
    using checkLine_Column [OF g that] .
  have d0: "checkDiagonal a (set ms) Main = ?P (Diagonal, 0)"
    using checkDiagonal_Main [OF g] .
  have d1: "checkDiagonal a (set ms) Anti = ?P (Diagonal, 1)"
    using checkDiagonal_Anti [OF g] .
  show ?thesis
    unfolding checkWin_try_def a classifyCard_spec_def candidate_lines_def
    by (simp add: checkWin_lines_find upt5 r cl d0 d1 Let_def del: line_cells.simps)
qed

lemma classifyCard_empty:
  assumes "well_formed c"
  shows "classifyCard_spec c [] = no_win"
proof -
  from assms obtain m0 m1 m2 m3 m4 y0 y1 y2 y3 y4 n0 n1 n2 n3 g0 g1 g2 g3 g4 o0 o1 o2 o3 o4
  where c: "c = \<lparr>M = Some [m0, m1, m2, m3, m4], Y = Some [y0, y1, y2, y3, y4],
               N = Some [n0, n1, n2, n3], G = Some [g0, g1, g2, g3, g4],
               O_col = Some [o0, o1, o2, o3, o4]\<rparr>"
    by (rule well_formedE)
  show ?thesis
    unfolding c
    by (simp add: classifyCard_spec_def candidate_lines_def upt5 grid_cell_def grid_columns_def
        stored_def satisfied_def)
qed

text \<open>
  Claim C1.  On a well-formed card and any list of marked numbers, \<open>checkWin\<close> returns
  what the specification's classifier returns: the first line, in the order rows 0-4,
  columns 0-4, main diagonal, anti diagonal, all of whose cells are the free cell or
  marked, tagged with its kind and index; and no-win when there is no such line.
\<close>

theorem checkWin_classifyCard:
  assumes "well_formed c"
  shows "checkWin (Some c) (Some markedNumbers) = Inr (classifyCard_spec c markedNumbers)"
proof (cases "markedNumbers = []")
  case True
  then show ?thesis
    by (simp add: checkWin_def classifyCard_empty [OF assms])
next
  case False
  then show ?thesis
    by (simp add: checkWin_def checkWin_try_classify [OF assms])
qed

subsection \<open>Near-win detection on a well-formed card\<close>

lemma isCloseToWin_lines_ex:
  "isCloseToWin_lines a marked ls =
     list_ex (\<lambda>(t, i). count_unmarked a marked t i 0 0 = 1) ls"
  by (induction ls) (auto split: if_splits)

lemma not_satisfied: "(x \<noteq> WILD \<and> \<not> has (set ms) x) = (\<not> satisfied ms x)"
  by (cases x) (auto simp: satisfied_def)

lemma count_unmarked_Row:
  assumes "\<forall>i<5. \<forall>j<5. a ! i ! j = grid_cell c i j" and "k < 5"
  shows "count_unmarked a (set ms) Row k 0 0 = unmarked_count c ms (Row, k)"
  using assms
  by (simp add: count_unmarked_filter unmarked_count_def cell_of_def upt5 not_satisfied)

lemma count_unmarked_Column:
  assumes "\<forall>i<5. \<forall>j<5. a ! i ! j = grid_cell c i j" and "k < 5"
  shows "count_unmarked a (set ms) Column k 0 0 = unmarked_count c ms (Column, k)"
  using assms
  by (simp add: count_unmarked_filter unmarked_count_def cell_of_def upt5 not_satisfied)

lemma count_unmarked_Diagonal:
  assumes "\<forall>i<5. \<forall>j<5. a ! i ! j = grid_cell c i j"
  shows "count_unmarked a (set ms) Diagonal k 0 0 = unmarked_count c ms (Diagonal, k)"
  using assms
  by (simp add: count_unmarked_filter unmarked_count_def cell_of_def upt5 not_satisfied)

lemma lines_candidate: "lines = candidate_lines"
  by (simp add: lines_def candidate_lines_def upt5)

lemma isCloseToWin_body:
  assumes "well_formed c"
  shows "\<exists>a. cardToArray (Some c) = Inr a \<and>
     isCloseToWin_lines a (set ms) lines = classifyNearWin_spec c ms"
proof -
  from cardToArray_grid [OF assms] obtain a where a: "cardToArray (Some c) = Inr a"
    and g: "\<forall>i<5. \<forall>j<5. a ! i ! j = grid_cell c i j" by blast
  have "list_ex (\<lambda>(t, i). count_unmarked a (set ms) t i 0 0 = 1) candidate_lines
        = list_ex (\<lambda>l. unmarked_count c ms l = 1) candidate_lines"
    unfolding candidate_lines_def
    by (simp add: count_unmarked_Row [OF g] count_unmarked_Column [OF g]
        count_unmarked_Diagonal [OF g])
  then show ?thesis
    using a by (simp add: isCloseToWin_lines_ex lines_candidate classifyNearWin_spec_def)
qed

lemma classifyNearWin_empty:
  assumes "well_formed c"
  shows "classifyNearWin_spec c [] = False"
proof -
  from assms obtain m0 m1 m2 m3 m4 y0 y1 y2 y3 y4 n0 n1 n2 n3 g0 g1 g2 g3 g4 o0 o1 o2 o3 o4
  where c: "c = \<lparr>M = Some [m0, m1, m2, m3, m4], Y = Some [y0, y1, y2, y3, y4],
               N = Some [n0, n1, n2, n3], G = Some [g0, g1, g2, g3, g4],
               O_col = Some [o0, o1, o2, o3, o4]\<rparr>"
    by (rule well_formedE)
  show ?thesis
    unfolding c
    by (simp add: classifyNearWin_spec_def unmarked_count_def candidate_lines_def upt5
        grid_cell_def grid_columns_def stored_def satisfied_def)
qed

text \<open>
  Claim C2.  On a well-formed card and any list of marked numbers, \<open>isCloseToWin\<close>
  returns true iff one of the twelve candidate lines has exactly one cell that is neither
  the free cell nor marked.
\<close>

theorem isCloseToWin_classifyNearWin:
  assumes "well_formed c"
  shows "isCloseToWin (Some c) (Some markedNumbers) = Inr (classifyNearWin_spec c markedNumbers)"
proof (cases "markedNumbers = []")
  case True
  then show ?thesis
    by (simp add: isCloseToWin_def classifyNearWin_empty [OF assms])
next
  case False
  from isCloseToWin_body [OF assms, of markedNumbers] obtain a
    where "cardToArray (Some c) = Inr a"
      "isCloseToWin_lines a (set markedNumbers) lines = classifyNearWin_spec c markedNumbers"
    by blast
  with False show ?thesis
    by (simp add: isCloseToWin_def)
qed

text \<open>
  Claim C1, at \<open>example_card\<close> with row 2 marked (and one more number): a win on row 2.
\<close>

theorem checkWin_classifyCard_witness:
  "well_formed example_card \<and>
   checkWin (Some example_card) (Some [3, 18, 48, 63, 1]) = Inr (win Row 2)"
proof -
  have wf: "well_formed example_card"
    by (simp add: well_formed_def example_card_def)
  have "classifyCard_spec example_card [3, 18, 48, 63, 1] = win Row 2"
    by (simp add: classifyCard_spec_def candidate_lines_def upt5 grid_cell_def grid_columns_def
        stored_def satisfied_def example_card_def)
  with checkWin_classifyCard [OF wf, of "[3, 18, 48, 63, 1]"] wf show ?thesis by simp
qed

text \<open>
  Claim C2, at \<open>example_card\<close> with three of the four numbers of row 2 marked.
\<close>

theorem isCloseToWin_classifyNearWin_witness:
  "well_formed example_card \<and>
   isCloseToWin (Some example_card) (Some [3, 18, 48]) = Inr True"
proof -
  have wf: "well_formed example_card"
    by (simp add: well_formed_def example_card_def)
  have "classifyNearWin_spec example_card [3, 18, 48] = True"
    by (simp add: classifyNearWin_spec_def unmarked_count_def candidate_lines_def upt5
        grid_cell_def grid_columns_def stored_def satisfied_def example_card_def)
  with isCloseToWin_classifyNearWin [OF wf, of "[3, 18, 48]"] wf show ?thesis by simp
qed

subsection \<open>Malformed cards\<close>

lemma cardToArray_missing:
  "missing_column c \<Longrightarrow> cardToArray (Some c) = Inl InvalidCardStructure"
  by (auto simp: missing_column_def cardToArray_def split: option.splits)

lemma cardToArray_present:
  "\<not> missing_column c \<Longrightarrow> \<exists>a. cardToArray (Some c) = Inr a"
  by (auto simp: missing_column_def cardToArray_def split: option.splits)

lemma cardToArray_dims:
  assumes "cardToArray crd = Inr a"
  shows "length a = 5 \<and> (\<forall>r \<in> set a. length r = 5)"
  using assms
  by (auto simp: cardToArray_def cardToArray_loop_unfold cardToArray_row_def
      split: option.splits)

text \<open>
  Claim C4, as stated, fails for a column of wrong length: \<open>short_card\<close> is not
  well-formed, and yet \<open>checkWin\<close> reports a win on row 0 and \<open>isCloseToWin\<close> returns
  true on row 3, whose first cell is read beyond the end of the M column.
\<close>

theorem malformed_card_counterexample:
  "\<not> well_formed short_card \<and>
   checkWin (Some short_card) (Some [1, 16, 31, 46, 61])
     = Inr \<lparr>hasWin = True, pattern = Some Row, line = Some 0\<rparr> \<and>
   isCloseToWin (Some short_card) (Some [19, 33, 49, 64]) = Inr True"
  by (simp add: well_formed_def short_card_def checkWin_def checkWin_try_def cardToArray_def
      cardToArray_loop_unfold cardToArray_row_def at_index_def checkWin_lines.simps
      checkLine_def checkLine_loop.simps win_def isCloseToWin_def lines_def upt5
      count_unmarked.simps cell_of_def)

text \<open>
  Claim C4, amended.  Neither \<open>checkWin\<close> nor \<open>isCloseToWin\<close> throws, on any card value
  and any marked numbers; and when the card is absent or lacks one of its five columns,
  \<open>checkWin\<close> returns no-win and \<open>isCloseToWin\<close> returns false.
\<close>

theorem missing_column_fail_closed:
  "(\<exists>w. checkWin crd markedNumbers = Inr w) \<and>
   (\<exists>b. isCloseToWin crd markedNumbers = Inr b) \<and>
   (crd = None \<or> (\<exists>c. crd = Some c \<and> missing_column c) \<longrightarrow>
      checkWin crd markedNumbers = Inr no_win \<and> isCloseToWin crd markedNumbers = Inr False)"
proof (intro conjI impI)
  show "\<exists>w. checkWin crd markedNumbers = Inr w"
    by (auto simp: checkWin_def split: sum.splits)
  show "\<exists>b. isCloseToWin crd markedNumbers = Inr b"
    by (auto simp: isCloseToWin_def split: sum.splits)
next
  assume "crd = None \<or> (\<exists>c. crd = Some c \<and> missing_column c)"
  then have "crd = None \<or> cardToArray crd = Inl InvalidCardStructure"
    using cardToArray_missing by auto
  then show "checkWin crd markedNumbers = Inr no_win"
    by (auto simp: checkWin_def checkWin_try_def)
next
  assume "crd = None \<or> (\<exists>c. crd = Some c \<and> missing_column c)"
  then have "crd = None \<or> cardToArray crd = Inl InvalidCardStructure"
    using cardToArray_missing by auto
  then show "isCloseToWin crd markedNumbers = Inr False"
    by (auto simp: isCloseToWin_def)
qed

text \<open>
  Claim C4, amended, at \<open>partial_card\<close>.
\<close>

theorem missing_column_fail_closed_witness:
  "missing_column partial_card \<and>
   checkWin (Some partial_card) (Some [1, 16, 46, 61]) = Inr no_win \<and>
   isCloseToWin (Some partial_card) (Some [1, 16, 46, 61]) = Inr False"
proof -
  have m: "missing_column partial_card"
    by (simp add: missing_column_def partial_card_def)
  with missing_column_fail_closed [of "Some partial_card" "Some [1, 16, 46, 61]"]
  show ?thesis by simp
qed

text \<open>
  Claim C8.  On a card that lacks one of its five columns and a non-empty list of marked
  numbers, \<open>isCloseToWinLegacy\<close> throws the error of \<open>cardToArray\<close>, and
  \<open>isCloseToWin\<close> returns false.
\<close>

theorem isCloseToWinLegacy_throws:
  assumes "missing_column c" and "markedNumbers \<noteq> []"
  shows "isCloseToWinLegacy (Some c) (Some markedNumbers) = Inl InvalidCardStructure \<and>
         isCloseToWin (Some c) (Some markedNumbers) = Inr False"
  using assms by (simp add: isCloseToWinLegacy_def isCloseToWin_def cardToArray_missing)

text \<open>
  Claim C8 at \<open>partial_card\<close>.
\<close>

theorem isCloseToWinLegacy_throws_witness:
  "missing_column partial_card \<and> [1, 16, 46, 61] \<noteq> ([]::int list) \<and>
   isCloseToWinLegacy (Some partial_card) (Some [1, 16, 46, 61]) = Inl InvalidCardStructure \<and>
   isCloseToWin (Some partial_card) (Some [1, 16, 46, 61]) = Inr False"
proof -
  have m: "missing_column partial_card"
    by (simp add: missing_column_def partial_card_def)
  have n: "[1, 16, 46, 61] \<noteq> ([]::int list)" by simp
  from isCloseToWinLegacy_throws [OF m n] m show ?thesis by simp
qed

subsection \<open>Card generation\<close>

lemma random_index_range:
  assumes "0 \<le> r" "r < 1" "xs \<noteq> []"
  shows "0 \<le> \<lfloor>r * real (length xs)\<rfloor> \<and> \<lfloor>r * real (length xs)\<rfloor> < int (length xs)"
proof -
  have len: "0 < real (length xs)" using assms(3) by simp
  have "r * real (length xs) < real (length xs)"
    using assms(2) len by simp
  then have "\<lfloor>r * real (length xs)\<rfloor> < int (length xs)"
    by (simp add: floor_less_iff)
  moreover have "0 \<le> r * real (length xs)" using assms(1) by simp
  then have "0 \<le> \<lfloor>r * real (length xs)\<rfloor>" by simp
  ultimately show ?thesis by simp
qed

lemma splice1_in_range:
  assumes "0 \<le> i" "i < int (length xs)"
  shows "splice1 xs i = (Some (xs ! nat i), take (nat i) xs @ drop (Suc (nat i)) xs)"
  using assms by (simp add: splice1_def Let_def)

lemma remove_at_distinct:
  assumes "n < length xs" "distinct xs"
  shows "distinct (take n xs @ drop (Suc n) xs) \<and>
         set (take n xs @ drop (Suc n) xs) = set xs - {xs ! n} \<and>
         length (take n xs @ drop (Suc n) xs) = length xs - 1"
proof -
  have xs: "xs = take n xs @ xs ! n # drop (Suc n) xs"
    using assms(1) by (rule id_take_nth_drop)
  have d: "distinct (take n xs @ xs ! n # drop (Suc n) xs)"
    using assms(2) xs by simp
  have s: "set xs = set (take n xs @ xs ! n # drop (Suc n) xs)"
    using xs by simp
  show ?thesis
    using d assms(1) by (auto simp: s)
qed

lemma getRandomNumbers_loop_ok:
  assumes "\<forall>k. 0 \<le> rnd k \<and> rnd k < 1"
    and "c \<le> length available" and "distinct available" and "distinct numbers"
    and "set numbers \<inter> set available = {}"
  shows "\<exists>ns k'. getRandomNumbers_loop rnd k c available numbers = Some (ns, k') \<and>
           length ns = length numbers + c \<and> distinct ns \<and>
           set ns \<subseteq> set numbers \<union> set available"
  using assms(2-)
proof (induction c arbitrary: k available numbers)
  case 0
  then show ?case by simp
next
  case (Suc c)
  then have ne: "available \<noteq> []" by auto
  let ?i = "\<lfloor>rnd k * real (length available)\<rfloor>"
  have r: "0 \<le> ?i" "?i < int (length available)"
    using random_index_range [OF _ _ ne, of "rnd k"] assms(1) by auto
  let ?n = "nat ?i"
  let ?av = "take ?n available @ drop (Suc ?n) available"
  have n: "?n < length available" using r by linarith
  have sp: "splice1 available ?i = (Some (available ! ?n), ?av)"
    using r by (rule splice1_in_range)
  from remove_at_distinct [OF n Suc.prems(2)]
  have av: "distinct ?av" "set ?av = set available - {available ! ?n}"
    "length ?av = length available - 1" by simp_all
  have mem: "available ! ?n \<in> set available" using n by simp
  have 1: "c \<le> length ?av" using Suc.prems(1) av(3) by simp
  have 2: "distinct (numbers @ [available ! ?n])"
    using Suc.prems(3,4) mem by auto
  have 3: "set (numbers @ [available ! ?n]) \<inter> set ?av = {}"
    using Suc.prems(4) av(2) by auto
  from Suc.IH [OF 1 av(1) 2 3, of "k + 1"] obtain ns k'
    where res: "getRandomNumbers_loop rnd (k + 1) c ?av (numbers @ [available ! ?n]) = Some (ns, k')"
      "length ns = length (numbers @ [available ! ?n]) + c" "distinct ns"
      "set ns \<subseteq> set (numbers @ [available ! ?n]) \<union> set ?av"
    by blast
  have "getRandomNumbers_loop rnd k (Suc c) available numbers = Some (ns, k')"
    using sp res(1) by (simp add: Let_def)
  moreover have "length ns = length numbers + Suc c" using res(2) by simp
  moreover have "set ns \<subseteq> set numbers \<union> set available"
    using res(4) av(2) mem by auto
  ultimately show ?case using res(3) by blast
qed

lemma getRandomNumbers_ok:
  assumes "\<forall>k. 0 \<le> rnd k \<and> rnd k < 1" and "int count \<le> mx - mn + 1"
  shows "\<exists>ns k'. getRandomNumbers rnd k mn mx count = Some (ns, k') \<and>
           length ns = count \<and> distinct ns \<and> sorted ns \<and> set ns \<subseteq> {mn..mx}"
proof -
  let ?av = "map (\<lambda>i. mn + int i) [0..<nat (mx - mn + 1)]"
  have d: "distinct ?av" by (simp add: distinct_map inj_on_def)
  have l: "count \<le> length ?av" using assms(2) by simp
  have s: "set ?av \<subseteq> {mn..mx}" by auto
  from getRandomNumbers_loop_ok [OF assms(1) l d, of "[]" k] obtain ns k'
    where res: "getRandomNumbers_loop rnd k count ?av [] = Some (ns, k')"
      "length ns = count" "distinct ns" "set ns \<subseteq> set ?av"
    by auto
  have "getRandomNumbers rnd k mn mx count = Some (sort ns, k')"
    using res(1) by (simp add: getRandomNumbers_def)
  moreover have "set (sort ns) \<subseteq> {mn..mx}" using res(4) s by auto
  ultimately show ?thesis using res(2,3) by auto
qed

text \<open>
  Claim C3.  Whatever numbers in [0, 1) the random source returns, the generator returns
  a card whose columns M, Y, N, G, O hold 5, 5, 4, 5, 5 numbers from [1,15], [16,30],
  [31,45], [46,60], [61,75]; no number occurs twice on the card, and every column is in
  ascending order.
\<close>

theorem generateMyngoCard_valid:
  assumes "\<forall>k. 0 \<le> rnd k \<and> rnd k < 1"
  shows "\<exists>cm cy cn cg co.
     generateMyngoCard rnd
       = Some \<lparr>M = Some cm, Y = Some cy, N = Some cn, G = Some cg, O_col = Some co\<rparr> \<and>
     length cm = 5 \<and> set cm \<subseteq> {1..15} \<and>
     length cy = 5 \<and> set cy \<subseteq> {16..30} \<and>
     length cn = 4 \<and> set cn \<subseteq> {31..45} \<and>
     length cg = 5 \<and> set cg \<subseteq> {46..60} \<and>
     length co = 5 \<and> set co \<subseteq> {61..75} \<and>
     distinct (cm @ cy @ cn @ cg @ co) \<and>
     sorted cm \<and> sorted cy \<and> sorted cn \<and> sorted cg \<and> sorted co"
proof -
  from getRandomNumbers_ok [OF assms, of 5 15 1 0] obtain cm k1 where
    m: "getRandomNumbers rnd 0 1 15 5 = Some (cm, k1)" "length cm = 5" "distinct cm"
      "sorted cm" "set cm \<subseteq> {1..15}" by auto
  from getRandomNumbers_ok [OF assms, of 5 30 16 k1] obtain cy k2 where
    y: "getRandomNumbers rnd k1 16 30 5 = Some (cy, k2)" "length cy = 5" "distinct cy"
      "sorted cy" "set cy \<subseteq> {16..30}" by auto
  from getRandomNumbers_ok [OF assms, of 4 45 31 k2] obtain cn k3 where
    n: "getRandomNumbers rnd k2 31 45 4 = Some (cn, k3)" "length cn = 4" "distinct cn"
      "sorted cn" "set cn \<subseteq> {31..45}" by auto
  from getRandomNumbers_ok [OF assms, of 5 60 46 k3] obtain cg k4 where
    g: "getRandomNumbers rnd k3 46 60 5 = Some (cg, k4)" "length cg = 5" "distinct cg"
      "sorted cg" "set cg \<subseteq> {46..60}" by auto
  from getRandomNumbers_ok [OF assms, of 5 75 61 k4] obtain co k5 where
    o: "getRandomNumbers rnd k4 61 75 5 = Some (co, k5)" "length co = 5" "distinct co"
      "sorted co" "set co \<subseteq> {61..75}" by auto
  have card: "generateMyngoCard rnd
       = Some \<lparr>M = Some cm, Y = Some cy, N = Some cn, G = Some cg, O_col = Some co\<rparr>"
    by (simp add: generateMyngoCard_def m(1) y(1) n(1) g(1) o(1))
  have disj: "distinct (cm @ cy @ cn @ cg @ co)"
    using m(3,5) y(3,5) n(3,5) g(3,5) o(3,5) by (simp add: subset_eq Ball_def disjoint_iff) force
  show ?thesis
    using card disj m(2,4,5) y(2,4,5) n(2,4,5) g(2,4,5) o(2,4,5) by blast
qed

text \<open>
  Claim C3 with the random source that always returns 1/2.
\<close>

theorem generateMyngoCard_valid_witness:
  "(\<forall>k. (0::real) \<le> (\<lambda>_. 1 / 2) k \<and> (\<lambda>_. 1 / 2 :: real) k < 1) \<and>
   generateMyngoCard (\<lambda>_. 1 / 2)
     = Some \<lparr>M = Some [6, 7, 8, 9, 10], Y = Some [21, 22, 23, 24, 25],
         N = Some [37, 38, 39, 40], G = Some [51, 52, 53, 54, 55],
         O_col = Some [66, 67, 68, 69, 70]\<rparr> \<and>
   (\<exists>cm cy cn cg co.
     generateMyngoCard (\<lambda>_. 1 / 2)
       = Some \<lparr>M = Some cm, Y = Some cy, N = Some cn, G = Some cg, O_col = Some co\<rparr> \<and>
     length cm = 5 \<and> set cm \<subseteq> {1..15} \<and>
     length cy = 5 \<and> set cy \<subseteq> {16..30} \<and>
     length cn = 4 \<and> set cn \<subseteq> {31..45} \<and>
     length cg = 5 \<and> set cg \<subseteq> {46..60} \<and>
     length co = 5 \<and> set co \<subseteq> {61..75} \<and>
     distinct (cm @ cy @ cn @ cg @ co) \<and>
     sorted cm \<and> sorted cy \<and> sorted cn \<and> sorted cg \<and> sorted co)"
proof -
  have h: "\<forall>k. (0::real) \<le> (\<lambda>_. 1 / 2) k \<and> (\<lambda>_. 1 / 2 :: real) k < 1" by simp
  have c: "generateMyngoCard (\<lambda>_. 1 / 2)
     = Some \<lparr>M = Some [6, 7, 8, 9, 10], Y = Some [21, 22, 23, 24, 25],
         N = Some [37, 38, 39, 40], G = Some [51, 52, 53, 54, 55],
         O_col = Some [66, 67, 68, 69, 70]\<rparr>"
    by (simp add: generateMyngoCard_def getRandomNumbers_def Let_def splice1_def upt_rec
        numeral_eq_Suc)
  from generateMyngoCard_valid [OF h] h c show ?thesis by blast
qed

subsection \<open>Timing model\<close>

text \<open>
  Claim C6, as stated for every player count and every duration, fails at 90 players and
  0 minutes: \<open>0 / 0\<close> is \<open>NaN\<close>, which \<open>Math.min\<close> and \<open>Math.max\<close> hand on, so the
  value returned is not in [10, 90].
\<close>

theorem calculateCallFrequency_90_0:
  "calculateCallFrequency (Finite 90) (Finite 0) = NaN"
  by (simp add: calculateCallFrequency_def Let_def)

text \<open>
  Claim C6, amended.  For a whole number of players from 10 to 100 and a whole number of
  minutes from 15 to 90, the ranges the host setup offers, \<open>calculateCallFrequency\<close>
  returns the rounded quotient clamped to [10, 90]; at 90 players, where the divisor is
  zero, it returns 90.
\<close>

theorem calculateCallFrequency_slider_ranges:
  fixes p m :: int
  assumes "10 \<le> p" and "p \<le> 100" and "15 \<le> m" and "m \<le> 90"
  shows "calculateCallFrequency (Finite (of_int p)) (Finite (of_int m)) =
     Finite (of_int (if p = 90 then 90
        else clamp_to 10 90 \<lfloor>real_of_int m * 60 * 0.90 / (45 - 0.5 * real_of_int p) + 1 / 2\<rfloor>))"
proof -
  let ?a = "real_of_int m * 60 * 0.90"
  let ?d = "45 - 0.5 * real_of_int p"
  have m: "15 \<le> real_of_int m" using assms(3) by simp
  have p: "10 \<le> real_of_int p" "real_of_int p \<le> 100" using assms(1,2) by simp_all
  have a: "810 \<le> ?a" using m by simp
  have num: "js_mul (js_mul (Finite (real_of_int m)) (Finite 60)) (Finite 0.90) = Finite ?a"
    using m by simp
  have den: "js_sub (Finite 45) (js_mul (Finite 0.5) (Finite (real_of_int p))) = Finite ?d"
    using p by simp
  consider "p = 90" | "p < 90" | "90 < p" by linarith
  then show ?thesis
  proof cases
    case 1
    then have "?d = 0" by simp
    with a 1 show ?thesis
      unfolding calculateCallFrequency_def Let_def num den by simp
  next
    case 2
    then have "real_of_int p < 90" by simp
    then have d: "0 < ?d" by simp
    then have q: "0 < ?a / ?d" using a by simp
    with d 2 show ?thesis
      unfolding calculateCallFrequency_def Let_def num den
      by (simp add: clamp_to_def)
  next
    case 3
    then have "90 < real_of_int p" by simp
    then have d: "?d < 0" "- 5 \<le> ?d" using p by simp_all
    have q: "?a / ?d < - (1 / 2)"
      using a d by (simp add: field_simps)
    with d 3 show ?thesis
      unfolding calculateCallFrequency_def Let_def num den
      by (simp add: clamp_to_def)
  qed
qed

text \<open>
  Claim C6, amended, at 10 players and 15 minutes (20 seconds) and at 90 players.
\<close>

theorem calculateCallFrequency_slider_ranges_witness:
  "(10::int) \<le> 10 \<and> (10::int) \<le> 100 \<and> (15::int) \<le> 15 \<and> (15::int) \<le> 90 \<and>
   calculateCallFrequency (Finite 10) (Finite 15) = Finite 20 \<and>
   calculateCallFrequency (Finite 90) (Finite 15) = Finite 90"
proof -
  have "\<lfloor>(810::real) / 40 + 1 / 2\<rfloor> = 20" by simp
  with calculateCallFrequency_slider_ranges [of 10 15]
    calculateCallFrequency_slider_ranges [of 90 15]
  show ?thesis by (simp add: clamp_to_def)
qed

lemma calculateCallsNeeded_finite:
  assumes "0 < p"
  shows "calculateCallsNeeded (Finite p) = Finite (of_int (clamp_to 15 75 \<lceil>50 - 10 * log 10 p\<rceil>))"
proof (cases "- 1 < 50 - 10 * log 10 p \<and> 50 - 10 * log 10 p < 0")
  case True
  then have "\<lceil>50 - 10 * log 10 p\<rceil> = 0"
    by (intro ceiling_unique) simp_all
  with True assms show ?thesis
    by (simp add: calculateCallsNeeded_def calculateCallsNeeded_result_def clamp_to_def)
next
  case False
  with assms show ?thesis
    by (auto simp: calculateCallsNeeded_def calculateCallsNeeded_result_def clamp_to_def)
qed

text \<open>
  Claim C7.  \<open>calculateCallsNeeded\<close> does not increase with the player count, from one
  player on.
\<close>

theorem calculateCallsNeeded_antimono:
  assumes "1 \<le> p1" and "p1 \<le> p2"
  shows "\<exists>a b. calculateCallsNeeded (Finite p1) = Finite a \<and>
               calculateCallsNeeded (Finite p2) = Finite b \<and> b \<le> a"
proof -
  have pos: "0 < p1" "0 < p2" using assms by linarith+
  have "log 10 p1 \<le> log 10 p2"
    using assms pos by simp
  then have "\<lceil>50 - 10 * log 10 p2\<rceil> \<le> \<lceil>50 - 10 * log 10 p1\<rceil>"
    by (intro ceiling_mono) simp
  then have "clamp_to 15 75 \<lceil>50 - 10 * log 10 p2\<rceil> \<le> clamp_to 15 75 \<lceil>50 - 10 * log 10 p1\<rceil>"
    by (simp add: clamp_to_def)
  then show ?thesis
    by (simp add: calculateCallsNeeded_finite pos)
qed

text \<open>
  Claim C7 at 1 and 10 players: 50 and 40 calls.
\<close>

theorem calculateCallsNeeded_antimono_witness:
  "(1::real) \<le> 1 \<and> (1::real) \<le> 10 \<and>
   (\<exists>a b. calculateCallsNeeded (Finite 1) = Finite a \<and>
          calculateCallsNeeded (Finite 10) = Finite b \<and> b \<le> a) \<and>
   calculateCallsNeeded (Finite 1) = Finite 50 \<and> calculateCallsNeeded (Finite 10) = Finite 40"
proof -
  have h1: "(1::real) \<le> 1" and h2: "(1::real) \<le> 10" by simp_all
  have v: "calculateCallsNeeded (Finite 1) = Finite 50"
    "calculateCallsNeeded (Finite 10) = Finite 40"
    by (simp_all add: calculateCallsNeeded_def calculateCallsNeeded_result_def)
  from calculateCallsNeeded_antimono [OF h1 h2] h1 h2 v show ?thesis by blast
qed




subsection \<open>Letters and available numbers\<close>

text \<open>
  Claim C9.  \<open>getLetterForNumber\<close> returns the letter of the column whose range holds
  the number, and throws iff the number is outside [1, 75].
\<close>

theorem getLetterForNumber_ranges:
  "(1 \<le> n \<and> n \<le> 15 \<longrightarrow> getLetterForNumber n = Inr ''M'') \<and>
   (16 \<le> n \<and> n \<le> 30 \<longrightarrow> getLetterForNumber n = Inr ''Y'') \<and>
   (31 \<le> n \<and> n \<le> 45 \<longrightarrow> getLetterForNumber n = Inr ''N'') \<and>
   (46 \<le> n \<and> n \<le> 60 \<longrightarrow> getLetterForNumber n = Inr ''G'') \<and>
   (61 \<le> n \<and> n \<le> 75 \<longrightarrow> getLetterForNumber n = Inr ''O'') \<and>
   ((\<exists>e. getLetterForNumber n = Inl e) \<longleftrightarrow> n < 1 \<or> 75 < n)"
  by (auto simp: getLetterForNumber_def)

text \<open>
  Claim C9 at one number of each column and at 76 and 0.
\<close>

theorem getLetterForNumber_ranges_witness:
  "getLetterForNumber 7 = Inr ''M'' \<and> getLetterForNumber 22 = Inr ''Y'' \<and>
   getLetterForNumber 42 = Inr ''N'' \<and> getLetterForNumber 60 = Inr ''G'' \<and>
   getLetterForNumber 61 = Inr ''O'' \<and>
   (\<exists>e. getLetterForNumber 76 = Inl e) \<and> (\<exists>e. getLetterForNumber 0 = Inl e)"
  using getLetterForNumber_ranges [of 7] getLetterForNumber_ranges [of 22]
    getLetterForNumber_ranges [of 42] getLetterForNumber_ranges [of 60]
    getLetterForNumber_ranges [of 61] getLetterForNumber_ranges [of 76]
    getLetterForNumber_ranges [of 0]
  by simp

lemma allNumbers_upto: "map (\<lambda>i. int i + 1) [0..<75] = [1..75]"
proof -
  have "map (\<lambda>i. int i + 1) [0..<n] = [1..int n]" for n
    by (induction n) (simp_all add: upto_rec2)
  from this [of 75] show ?thesis by simp
qed

text \<open>
  Claim C10.  \<open>getAvailableNumbers\<close> returns the numbers from 1 to 75 that are not the
  \<open>number\<close> of a record of its input, in strictly ascending order; all of them on the
  empty input.
\<close>

theorem getAvailableNumbers_exact:
  "set (getAvailableNumbers calledNumbers)
     = {n. 1 \<le> n \<and> n \<le> 75 \<and> n \<notin> number ` set calledNumbers} \<and>
   sorted_wrt (<) (getAvailableNumbers calledNumbers) \<and>
   getAvailableNumbers [] = [1..75] \<and> length (getAvailableNumbers []) = 75"
proof (intro conjI)
  show "set (getAvailableNumbers calledNumbers)
     = {n. 1 \<le> n \<and> n \<le> 75 \<and> n \<notin> number ` set calledNumbers}"
    by (auto simp: getAvailableNumbers_def allNumbers_upto)
  have "sorted_wrt (<) [1..75::int]"
    by (simp add: sorted_wrt_upto)
  then show "sorted_wrt (<) (getAvailableNumbers calledNumbers)"
    by (simp add: getAvailableNumbers_def allNumbers_upto sorted_wrt_filter)
  show "getAvailableNumbers [] = [1..75]"
    by (simp add: getAvailableNumbers_def allNumbers_upto)
  show "length (getAvailableNumbers []) = 75"
    by (simp add: getAvailableNumbers_def)
qed

end
